theory Spec2Isabelle
  imports Complex_Main "HOL-Library.Log_Nat"
begin

section \<open>Strings\<close>

text \<open>
  JavaScript strings are modelled as HOL strings: a string stands for the bytes of its
  UTF-8 encoding. Every string the middleware inspects (an HTTP method token, a MIME
  type, a limit such as \<open>56kb\<close>, the delimiters of a form body) is ASCII by its
  grammar, and there a character is a byte; the case mappings and the white space class
  below are the ASCII part of the JavaScript ones and leave every other byte alone.
\<close>

definition char_code :: "char \<Rightarrow> nat" where
  "char_code c = of_char c"

definition is_upper :: "char \<Rightarrow> bool" where
  "is_upper c = (65 \<le> char_code c \<and> char_code c \<le> 90)"

definition is_lower :: "char \<Rightarrow> bool" where
  "is_lower c = (97 \<le> char_code c \<and> char_code c \<le> 122)"

definition is_digit :: "char \<Rightarrow> bool" where
  "is_digit c = (48 \<le> char_code c \<and> char_code c \<le> 57)"

text \<open>The regular expression class \<open>\s\<close> and the characters \<open>trim\<close> strips: tab, line
  feed, vertical tab, form feed, carriage return and space.\<close>

definition is_space :: "char \<Rightarrow> bool" where
  "is_space c = (char_code c \<in> {9, 10, 11, 12, 13, 32})"

definition toLowerCase_char :: "char \<Rightarrow> char" where
  "toLowerCase_char c = (if is_upper c then char_of (char_code c + 32) else c)"

definition toUpperCase_char :: "char \<Rightarrow> char" where
  "toUpperCase_char c = (if is_lower c then char_of (char_code c - 32) else c)"

definition toLowerCase :: "string \<Rightarrow> string" where
  "toLowerCase s = map toLowerCase_char s"

definition toUpperCase :: "string \<Rightarrow> string" where
  "toUpperCase s = map toUpperCase_char s"

definition trim :: "string \<Rightarrow> string" where
  "trim s = rev (dropWhile is_space (rev (dropWhile is_space s)))"

section \<open>Numbers\<close>

text \<open>
  A JavaScript number is an IEEE 754 double: a finite value (a rational), an infinity or
  NaN. The sign of zero is not modelled: no comparison of the middleware tells the two
  zeros apart.
\<close>

datatype js_number = Finite rat | PosInfinity | NegInfinity | NaN

definition Number_isFinite :: "js_number \<Rightarrow> bool" where
  "Number_isFinite n = (case n of Finite q \<Rightarrow> True | _ \<Rightarrow> False)"

definition pow2 :: "int \<Rightarrow> rat" where
  "pow2 e = (if 0 \<le> e then 2 ^ nat e else 1 / 2 ^ nat (- e))"

text \<open>\<open>floor_log2 q\<close> is the binary exponent of a positive rational: the \<open>d\<close> with
  \<open>2^d \<le> q < 2^(d+1)\<close>.\<close>

definition floor_log2 :: "rat \<Rightarrow> int" where
  "floor_log2 q = (case quotient_of q of (a, b) \<Rightarrow>
     (let d = bitlen a - bitlen b in if pow2 d \<le> q then d else d - 1))"

definition round_half_even :: "rat \<Rightarrow> int" where
  "round_half_even x = (let f = \<lfloor>x\<rfloor>; r = x - of_int f
     in if r < 1 / 2 then f else if 1 / 2 < r then f + 1 else if even f then f else f + 1)"

text \<open>
  Rounding of a non-negative real to the nearest double, ties to even: 53 significant
  bits \<open>m\<close> at the exponent \<open>e\<close>, the least exponent \<open>-1074\<close> (gradual underflow), and
  infinity when the rounded value \<open>m * 2^e\<close> reaches \<open>2^1024\<close>, that is when the bit
  length of \<open>m\<close> plus \<open>e\<close> exceeds 1024.
\<close>

definition round_nonneg :: "rat \<Rightarrow> js_number" where
  "round_nonneg q = (if q = 0 then Finite 0 else
     (let e = max (floor_log2 q - 52) (- 1074);
          m = round_half_even (q / pow2 e)
      in if 1024 < bitlen m + e then PosInfinity else Finite (of_int m * pow2 e)))"

definition js_negate :: "js_number \<Rightarrow> js_number" where
  "js_negate n = (case n of Finite q \<Rightarrow> Finite (- q) | PosInfinity \<Rightarrow> NegInfinity
     | NegInfinity \<Rightarrow> PosInfinity | NaN \<Rightarrow> NaN)"

definition round_to_double :: "rat \<Rightarrow> js_number" where
  "round_to_double q = (if q < 0 then js_negate (round_nonneg (- q)) else round_nonneg q)"

text \<open>The operator \<open>*\<close> on numbers.\<close>

fun js_times :: "js_number \<Rightarrow> js_number \<Rightarrow> js_number" where
  "js_times NaN y = NaN"
| "js_times x NaN = NaN"
| "js_times (Finite a) (Finite b) = round_to_double (a * b)"
| "js_times (Finite a) PosInfinity =
     (if a = 0 then NaN else if 0 < a then PosInfinity else NegInfinity)"
| "js_times (Finite a) NegInfinity =
     (if a = 0 then NaN else if 0 < a then NegInfinity else PosInfinity)"
| "js_times PosInfinity (Finite b) =
     (if b = 0 then NaN else if 0 < b then PosInfinity else NegInfinity)"
| "js_times NegInfinity (Finite b) =
     (if b = 0 then NaN else if 0 < b then NegInfinity else PosInfinity)"
| "js_times PosInfinity PosInfinity = PosInfinity"
| "js_times PosInfinity NegInfinity = NegInfinity"
| "js_times NegInfinity PosInfinity = NegInfinity"
| "js_times NegInfinity NegInfinity = PosInfinity"

definition Math_floor :: "js_number \<Rightarrow> js_number" where
  "Math_floor n = (case n of Finite q \<Rightarrow> Finite (of_int \<lfloor>q\<rfloor>) | _ \<Rightarrow> n)"

text \<open>\<open>size > limit\<close> for a blob size (a natural number of bytes) and a number.\<close>

definition size_exceeds :: "nat \<Rightarrow> js_number \<Rightarrow> bool" where
  "size_exceeds sz limit = (case limit of Finite q \<Rightarrow> q < of_nat sz
     | PosInfinity \<Rightarrow> False | NegInfinity \<Rightarrow> True | NaN \<Rightarrow> False)"

definition digit_value :: "char \<Rightarrow> int" where
  "digit_value c = int (char_code c) - 48"

definition digits_value :: "string \<Rightarrow> int" where
  "digits_value ds = foldl (\<lambda>a c. 10 * a + digit_value c) 0 ds"

text \<open>
  \<open>parseFloat\<close> on an unsigned decimal literal without exponent (digits, then optionally
  a point and digits), which is all the limit pattern lets through: the double nearest
  to its decimal value. Any other argument is outside this model and gives NaN here.
\<close>

definition parseFloat :: "string \<Rightarrow> js_number" where
  "parseFloat s =
     (let ip = takeWhile is_digit s; r = dropWhile is_digit s;
          fp = (case r of [] \<Rightarrow> [] | c # r' \<Rightarrow> if c = CHR ''.'' then takeWhile is_digit r' else [])
      in if ip = [] then NaN
         else round_to_double (of_int (digits_value (ip @ fp)) / 10 ^ length fp))"

section \<open>Values and errors\<close>

text \<open>
  The JavaScript values the options, the context and the decoders handle. \<open>JDict\<close> is an
  object without a prototype (\<open>Object.create(null)\<close>): its own enumerable properties, in
  the order the language enumerates them. \<open>JObj\<close> is any other plain object, \<open>JStream\<close>
  an instance of \<open>ReadableStream\<close>.
\<close>

datatype js_value =
    JUndefined
  | JNull
  | JBool bool
  | JNum js_number
  | JStr string
  | JSym string
  | JFun string
  | JArr "js_value list"
  | JObj "(string \<times> js_value) list"
  | JDict "(string \<times> js_value) list"
  | JStream

fun js_typeof :: "js_value \<Rightarrow> string" where
  "js_typeof JUndefined = ''undefined''"
| "js_typeof JNull = ''object''"
| "js_typeof (JBool b) = ''boolean''"
| "js_typeof (JNum n) = ''number''"
| "js_typeof (JStr s) = ''string''"
| "js_typeof (JSym s) = ''symbol''"
| "js_typeof (JFun f) = ''function''"
| "js_typeof (JArr xs) = ''object''"
| "js_typeof (JObj ps) = ''object''"
| "js_typeof (JDict ps) = ''object''"
| "js_typeof JStream = ''object''"

text \<open>An \<open>Error\<close> object: its name (\<open>Error\<close>, \<open>SyntaxError\<close>, \<open>TypeError\<close>) and message.\<close>

datatype js_error = JsError (error_name: string) (message: string)

definition new_Error :: "string \<Rightarrow> js_error" where
  "new_Error msg = JsError ''Error'' msg"

section \<open>The limit parser\<close>

text \<open>
  The match of \<open>/^(\d+(?:\.\d+)?)\s*(b|kb|mb|gb)?$/\<close>: the two groups, or \<open>None\<close>. The
  expression is anchored at both ends and each of its parts is delimited by the next
  character, so the leftmost greedy match is the only one: digits, a point only when a
  digit follows it, white space, and one of the four units or nothing up to the end.
\<close>

definition limit_regex :: "string \<Rightarrow> (string \<times> string option) option" where
  "limit_regex s =
     (let ip = takeWhile is_digit s; r1 = dropWhile is_digit s;
          fp = (case r1 of [] \<Rightarrow> []
                | c # r \<Rightarrow> if c = CHR ''.'' \<and> takeWhile is_digit r \<noteq> []
                           then c # takeWhile is_digit r else []);
          r2 = drop (length fp) r1;
          r3 = dropWhile is_space r2
      in if ip = [] then None
         else if r3 = [] then Some (ip @ fp, None)
         else if r3 \<in> {''b'', ''kb'', ''mb'', ''gb''} then Some (ip @ fp, Some r3)
         else None)"

definition unit_multiplier :: "string \<Rightarrow> rat" where
  "unit_multiplier u = (if u = ''gb'' then 1024 ^ 3 else if u = ''mb'' then 1024 ^ 2
     else if u = ''kb'' then 1024 else 1)"

definition parseLimit :: "js_value \<Rightarrow> js_error + js_number" where
  "parseLimit limit =
     (case limit of
        JNull \<Rightarrow> Inr PosInfinity
      | JUndefined \<Rightarrow> Inr PosInfinity
      | JNum n \<Rightarrow>
          if Number_isFinite n then Inr n
          else Inl (new_Error (''Unsupported limit type: '' @ js_typeof limit))
      | JStr s \<Rightarrow>
          (case limit_regex (toLowerCase (trim s)) of
             None \<Rightarrow> Inl (new_Error (''Invalid limit: '' @ s))
           | Some (num, u) \<Rightarrow>
               (let n = parseFloat num;
                    u' = (case u of None \<Rightarrow> ''b'' | Some x \<Rightarrow> x);
                    mult = unit_multiplier u'
                in Inr (Math_floor (js_times n (Finite mult)))))
      | _ \<Rightarrow> Inl (new_Error (''Unsupported limit type: '' @ js_typeof limit)))"

section \<open>MIME registries\<close>

datatype body_type = TJson | TForm | TText

fun type_name :: "body_type \<Rightarrow> string" where
  "type_name TJson = ''json''"
| "type_name TForm = ''form''"
| "type_name TText = ''text''"

fun BASE_MIME :: "body_type \<Rightarrow> string list" where
  "BASE_MIME TJson =
     [''application/json'', ''application/json-patch+json'', ''application/vnd.api+json'',
      ''application/csp-report'', ''application/reports+json'', ''application/scim+json'']"
| "BASE_MIME TForm = [''application/x-www-form-urlencoded'']"
| "BASE_MIME TText = [''text/plain'']"

text \<open>A \<open>Set\<close> of strings, as the list of its elements in insertion order (the order
  \<open>Array.from\<close> returns); \<open>add\<close> leaves a set that has the element as it is.\<close>

definition set_add :: "string list \<Rightarrow> string \<Rightarrow> string list" where
  "set_add s x = (if x \<in> set s then s else s @ [x])"

definition add_extra :: "string list \<Rightarrow> js_value \<Rightarrow> string list" where
  "add_extra s t = (case t of JStr x \<Rightarrow> if x \<noteq> [] then set_add s (toLowerCase x) else s | _ \<Rightarrow> s)"

definition mergeMimes :: "string list \<Rightarrow> js_value \<Rightarrow> string list" where
  "mergeMimes base extra =
     (let s = foldl (\<lambda>s t. set_add s (toLowerCase t)) [] base
      in case extra of JArr ts \<Rightarrow> foldl add_extra s ts | _ \<Rightarrow> s)"

section \<open>Requests, options and outcomes\<close>

record blob =
  blob_size :: nat
  blob_text :: string

text \<open>
  The part of the context the middleware touches: the method, \<open>ctx.req.type\<close> (\<open>None\<close>
  when it is null), the body slot \<open>ctx.req.body\<close> (a mutable cell: it holds what was
  last assigned to it, at first the stream or nothing), what \<open>ctx.req.blob()\<close> and
  \<open>ctx.request.clone().blob()\<close> settle to (the error of a rejected read on the left), and
  the response fields an error handler usually writes.
\<close>

record ctx =
  req_method :: string
  req_type :: "string option"
  req_body :: js_value
  req_blob :: "js_error + blob"
  request_clone_blob :: "js_error + blob"
  res_status :: nat
  res_body :: js_value

text \<open>
  The merged options. \<open>parsedMethods\<close> is \<open>None\<close> when the caller passed \<open>undefined\<close> for
  it; the three \<open>extendTypes\<close> fields are \<open>opts.extendTypes?.json\<close>, \<open>?.form\<close> and
  \<open>?.text\<close>, \<open>JUndefined\<close> when absent; \<open>onError\<close> is \<open>Some\<close> of the handler when
  \<open>typeof opts.onError === 'function'\<close>. A handler is a state transformer of the context.
\<close>

record options =
  enableTypes :: js_value
  parsedMethods :: "string list option"
  formLimit :: js_value
  jsonLimit :: js_value
  textLimit :: js_value
  extendTypes_json :: js_value
  extendTypes_form :: js_value
  extendTypes_text :: js_value
  onError :: "(js_error \<Rightarrow> ctx \<Rightarrow> ctx) option"
  useClone :: bool

definition defaults :: options where
  "defaults = \<lparr> enableTypes = JArr [JStr ''json'', JStr ''form''],
     parsedMethods = Some [''POST'', ''PUT'', ''PATCH''],
     formLimit = JStr ''56kb'', jsonLimit = JStr ''1mb'', textLimit = JStr ''1mb'',
     extendTypes_json = JUndefined, extendTypes_form = JUndefined,
     extendTypes_text = JUndefined, onError = None, useClone = True \<rparr>"

fun extendTypes :: "options \<Rightarrow> body_type \<Rightarrow> js_value" where
  "extendTypes opts TJson = extendTypes_json opts"
| "extendTypes opts TForm = extendTypes_form opts"
| "extendTypes opts TText = extendTypes_text opts"

definition mimeTypes :: "options \<Rightarrow> body_type \<Rightarrow> string list" where
  "mimeTypes opts t = mergeMimes (BASE_MIME t) (extendTypes opts t)"

definition isEnabled :: "options \<Rightarrow> body_type \<Rightarrow> bool" where
  "isEnabled opts t = (case enableTypes opts of JArr ts \<Rightarrow> JStr (type_name t) \<in> set ts | _ \<Rightarrow> False)"

definition methodShouldParse :: "options \<Rightarrow> string \<Rightarrow> bool" where
  "methodShouldParse opts method =
     (case parsedMethods opts of None \<Rightarrow> False | Some ms \<Rightarrow> toUpperCase method \<in> set ms)"

definition matchTypes :: "options \<Rightarrow> string option \<Rightarrow> body_type \<Rightarrow> bool" where
  "matchTypes opts reqType t =
     (case reqType of None \<Rightarrow> False | Some r \<Rightarrow> r \<noteq> [] \<and> r \<in> set (mimeTypes opts t))"

text \<open>
  What a call leaves behind: a value and the context after it, or something thrown.
  \<open>HttpError status message cause\<close> is what \<open>ctx.throw\<close> raises; \<open>Uncaught e\<close> is an
  error that propagates as it is.
\<close>

datatype js_thrown = HttpError nat string js_error | Uncaught js_error

datatype completion = Normal js_value ctx | Abrupt js_thrown ctx

definition throwOrHandle :: "options \<Rightarrow> ctx \<Rightarrow> js_error \<Rightarrow> nat \<Rightarrow> completion" where
  "throwOrHandle opts c err status =
     (case onError opts of
        Some handler \<Rightarrow> Normal JUndefined (handler err c)
      | None \<Rightarrow> Abrupt (HttpError status (message err) err) c)"

section \<open>Objects without a prototype\<close>

text \<open>
  An object made by \<open>Object.create(null)\<close> has no inherited property: \<open>obj[k]\<close> is the own
  property \<open>k\<close> or \<open>undefined\<close>, and \<open>obj[k] = v\<close> writes an own data property whatever
  the key is. The properties are kept in the order \<open>Object.keys\<close> and \<open>JSON.stringify\<close>
  enumerate them: the keys that are array indices (canonical decimal numerals up to
  \<open>2^32 - 2\<close>) first, in ascending numeric order, then the other keys in the order of
  their creation.
\<close>

type_synonym props = "(string \<times> js_value) list"

definition is_array_index :: "string \<Rightarrow> bool" where
  "is_array_index k = (k \<noteq> [] \<and> list_all is_digit k \<and> (k = ''0'' \<or> hd k \<noteq> CHR ''0'')
     \<and> digits_value k \<le> 4294967294)"

definition dict_get :: "props \<Rightarrow> string \<Rightarrow> js_value" where
  "dict_get obj k = (case map_of obj k of Some v \<Rightarrow> v | None \<Rightarrow> JUndefined)"

fun replace_prop :: "string \<Rightarrow> js_value \<Rightarrow> props \<Rightarrow> props" where
  "replace_prop k v [] = []"
| "replace_prop k v ((k', v') # ps) =
     (if k' = k then (k, v) # ps else (k', v') # replace_prop k v ps)"

fun insert_index :: "string \<Rightarrow> js_value \<Rightarrow> props \<Rightarrow> props" where
  "insert_index k v [] = [(k, v)]"
| "insert_index k v ((k', v') # ps) =
     (if is_array_index k' \<and> digits_value k' < digits_value k
      then (k', v') # insert_index k v ps
      else (k, v) # (k', v') # ps)"

definition dict_set :: "props \<Rightarrow> string \<Rightarrow> js_value \<Rightarrow> props" where
  "dict_set obj k v =
     (if k \<in> fst ` set obj then replace_prop k v obj
      else if is_array_index k then insert_index k v obj
      else obj @ [(k, v)])"

section \<open>URLSearchParams\<close>

text \<open>
  The entries of \<open>new URLSearchParams(text)\<close>, after the URL standard: one leading \<open>?\<close> is
  dropped, the rest is split at \<open>&\<close>, empty pieces are skipped, a piece is split at its
  first \<open>=\<close> (no \<open>=\<close>: the value is empty), \<open>+\<close> becomes a space, percent escapes are
  decoded, and the bytes are decoded as UTF-8. Strings stand for their UTF-8 bytes here,
  so decoding keeps every well-formed sequence and puts U+FFFD (\<open>EF BF BD\<close>) for each
  malformed one.
\<close>

primrec split_on :: "char \<Rightarrow> string \<Rightarrow> string list" where
  "split_on d [] = [[]]"
| "split_on d (c # cs) =
     (if c = d then [] # split_on d cs
      else (case split_on d cs of [] \<Rightarrow> [[c]] | p # ps \<Rightarrow> (c # p) # ps))"

definition is_hex :: "char \<Rightarrow> bool" where
  "is_hex c = (is_digit c \<or> (65 \<le> char_code c \<and> char_code c \<le> 70)
     \<or> (97 \<le> char_code c \<and> char_code c \<le> 102))"

definition hex_value :: "char \<Rightarrow> nat" where
  "hex_value c = (if is_digit c then char_code c - 48
     else if char_code c \<le> 70 then char_code c - 55 else char_code c - 87)"

fun percent_decode :: "string \<Rightarrow> string" where
  "percent_decode [] = []"
| "percent_decode [c] = [c]"
| "percent_decode [c, h] = [c, h]"
| "percent_decode (c # h # l # cs) =
     (if c = CHR ''%'' \<and> is_hex h \<and> is_hex l
      then char_of (16 * hex_value h + hex_value l) # percent_decode cs
      else c # percent_decode (h # l # cs))"

definition in_range :: "nat \<Rightarrow> nat \<Rightarrow> char \<Rightarrow> bool" where
  "in_range lo hi c = (lo \<le> char_code c \<and> char_code c \<le> hi)"

definition replacement :: string where
  "replacement = [char_of (239 :: nat), char_of (191 :: nat), char_of (189 :: nat)]"

fun utf8_decode :: "string \<Rightarrow> string" where
  "utf8_decode [] = []"
| "utf8_decode (b # bs) =
     (if char_code b < 128 then b # utf8_decode bs
      else if in_range 194 223 b then
        (case bs of [] \<Rightarrow> replacement
         | c1 # r1 \<Rightarrow> if in_range 128 191 c1 then b # c1 # utf8_decode r1
                      else replacement @ utf8_decode bs)
      else if in_range 224 239 b then
        (case bs of [] \<Rightarrow> replacement
         | c1 # r1 \<Rightarrow>
             if in_range (if char_code b = 224 then 160 else 128)
                  (if char_code b = 237 then 159 else 191) c1
             then (case r1 of [] \<Rightarrow> replacement
                   | c2 # r2 \<Rightarrow> if in_range 128 191 c2 then b # c1 # c2 # utf8_decode r2
                                else replacement @ utf8_decode r1)
             else replacement @ utf8_decode bs)
      else if in_range 240 244 b then
        (case bs of [] \<Rightarrow> replacement
         | c1 # r1 \<Rightarrow>
             if in_range (if char_code b = 240 then 144 else 128)
                  (if char_code b = 244 then 143 else 191) c1
             then (case r1 of [] \<Rightarrow> replacement
                   | c2 # r2 \<Rightarrow>
                       if in_range 128 191 c2
                       then (case r2 of [] \<Rightarrow> replacement
                             | c3 # r3 \<Rightarrow>
                                 if in_range 128 191 c3 then b # c1 # c2 # c3 # utf8_decode r3
                                 else replacement @ utf8_decode r2)
                       else replacement @ utf8_decode r1)
             else replacement @ utf8_decode bs)
      else replacement @ utf8_decode bs)"

definition form_decode :: "string \<Rightarrow> string" where
  "form_decode s = utf8_decode (percent_decode (map (\<lambda>c. if c = CHR ''+'' then CHR '' '' else c) s))"

definition form_pair :: "string \<Rightarrow> string \<times> string" where
  "form_pair s = (form_decode (takeWhile (\<lambda>c. c \<noteq> CHR ''='') s),
     form_decode (drop 1 (dropWhile (\<lambda>c. c \<noteq> CHR ''='') s)))"

definition URLSearchParams :: "string \<Rightarrow> (string \<times> string) list" where
  "URLSearchParams init =
     (let q = (case init of [] \<Rightarrow> [] | c # cs \<Rightarrow> if c = CHR ''?'' then cs else init)
      in map form_pair (filter (\<lambda>p. p \<noteq> []) (split_on CHR ''&'' q)))"

section \<open>The decoders\<close>

text \<open>\<open>JSON.parse\<close> is the platform's; the decoders take it as a parameter: the parsed
  value, or the \<open>SyntaxError\<close> it throws.\<close>

type_synonym json_parser = "string \<Rightarrow> js_error + js_value"

definition parseJsonFromBlob :: "json_parser \<Rightarrow> options \<Rightarrow> blob \<Rightarrow> ctx \<Rightarrow> completion" where
  "parseJsonFromBlob JSON_parse opts b c =
     (case parseLimit (jsonLimit opts) of
        Inl e \<Rightarrow> Abrupt (Uncaught e) c
      | Inr limit \<Rightarrow>
          if size_exceeds (blob_size b) limit
          then throwOrHandle opts c (new_Error ''Request body too large for JSON'') 413
          else (case JSON_parse (blob_text b) of
                  Inr v \<Rightarrow> Normal v c
                | Inl e \<Rightarrow>
                    (case throwOrHandle opts c e 400 of
                       Normal r c' \<Rightarrow> Normal JUndefined c'
                     | Abrupt t c' \<Rightarrow> Abrupt t c')))"

text \<open>The body of the loop over \<open>params.entries()\<close>; \<open>cur.push(v)\<close> changes the array
  the property holds, in its place.\<close>

fun form_step :: "props \<Rightarrow> string \<times> string \<Rightarrow> props" where
  "form_step obj (k, v) =
     (case dict_get obj k of
        JUndefined \<Rightarrow> dict_set obj k (JStr v)
      | JArr xs \<Rightarrow> replace_prop k (JArr (xs @ [JStr v])) obj
      | cur \<Rightarrow> dict_set obj k (JArr [cur, JStr v]))"

definition parseFormFromBlob :: "options \<Rightarrow> blob \<Rightarrow> ctx \<Rightarrow> completion" where
  "parseFormFromBlob opts b c =
     (case parseLimit (formLimit opts) of
        Inl e \<Rightarrow> Abrupt (Uncaught e) c
      | Inr limit \<Rightarrow>
          if size_exceeds (blob_size b) limit
          then throwOrHandle opts c (new_Error ''Request body too large for form'') 413
          else Normal (JDict (foldl form_step [] (URLSearchParams (blob_text b)))) c)"

definition parseTextFromBlob :: "options \<Rightarrow> blob \<Rightarrow> ctx \<Rightarrow> completion" where
  "parseTextFromBlob opts b c =
     (case parseLimit (textLimit opts) of
        Inl e \<Rightarrow> Abrupt (Uncaught e) c
      | Inr limit \<Rightarrow>
          if size_exceeds (blob_size b) limit
          then throwOrHandle opts c (new_Error ''Request body too large for text'') 413
          else Normal (JStr (blob_text b)) c)"

section \<open>The middleware\<close>

text \<open>
  How one run of the middleware ends: with \<open>return next()\<close> or \<open>await next()\<close> on the
  context as it then is, with a return that never called \<open>next\<close>, or with something
  thrown.
\<close>

datatype outcome = ReturnNext ctx | AwaitNext ctx | Return ctx | Throw js_thrown ctx

definition parseAs :: "options \<Rightarrow> string option \<Rightarrow> body_type option" where
  "parseAs opts reqType =
     (if isEnabled opts TJson \<and> matchTypes opts reqType TJson then Some TJson
      else if isEnabled opts TForm \<and> matchTypes opts reqType TForm then Some TForm
      else if isEnabled opts TText \<and> matchTypes opts reqType TText then Some TText
      else None)"

definition read_blob :: "options \<Rightarrow> ctx \<Rightarrow> js_error + blob" where
  "read_blob opts c = (if useClone opts then request_clone_blob c else req_blob c)"

definition hoaBodyParser_body :: "json_parser \<Rightarrow> options \<Rightarrow> ctx \<Rightarrow> outcome" where
  "hoaBodyParser_body JSON_parse opts c =
     (if \<not> methodShouldParse opts (req_method c) then ReturnNext c
      else if req_body c \<noteq> JUndefined \<and> req_body c \<noteq> JStream then ReturnNext c
      else (case parseAs opts (req_type c) of
              None \<Rightarrow> ReturnNext c
            | Some t \<Rightarrow>
                (case read_blob opts c of
                   Inl e \<Rightarrow>
                     (case throwOrHandle opts c e 400 of
                        Normal r c' \<Rightarrow> Return c'
                      | Abrupt x c' \<Rightarrow> Throw x c')
                 | Inr b \<Rightarrow>
                     (case (case t of
                              TJson \<Rightarrow> parseJsonFromBlob JSON_parse opts b c
                            | TForm \<Rightarrow> parseFormFromBlob opts b c
                            | TText \<Rightarrow> parseTextFromBlob opts b c) of
                        Normal parsed c' \<Rightarrow> AwaitNext (c'\<lparr>req_body := parsed\<rparr>)
                      | Abrupt x c' \<Rightarrow> Throw x c'))))"

text \<open>The middleware with its continuation: \<open>return next()\<close> hands back what \<open>next\<close>
  settles to, \<open>await next()\<close> drops its value.\<close>

definition hoaBodyParser :: "json_parser \<Rightarrow> options \<Rightarrow> ctx \<Rightarrow> (ctx \<Rightarrow> completion) \<Rightarrow> completion" where
  "hoaBodyParser JSON_parse opts c next =
     (case hoaBodyParser_body JSON_parse opts c of
        ReturnNext c' \<Rightarrow> next c'
      | AwaitNext c' \<Rightarrow> (case next c' of Normal r c'' \<Rightarrow> Normal JUndefined c''
                           | Abrupt x c'' \<Rightarrow> Abrupt x c'')
      | Return c' \<Rightarrow> Normal JUndefined c'
      | Throw x c' \<Rightarrow> Abrupt x c')"

section \<open>Notions used in the statements\<close>

subsection \<open>Runs of the middleware\<close>

text \<open>A request reaches the decoder for \<open>t\<close>: its method is parsed, its body slot is
  empty or still the stream, and \<open>t\<close> is the format chosen for its content type.\<close>

definition reaches_decoder :: "options \<Rightarrow> ctx \<Rightarrow> body_type \<Rightarrow> bool" where
  "reaches_decoder opts c t =
     (methodShouldParse opts (req_method c) \<and> (req_body c = JUndefined \<or> req_body c = JStream)
      \<and> parseAs opts (req_type c) = Some t)"

text \<open>The limit option of a format and the error its decoder makes for a body beyond it.\<close>

fun limit_of :: "options \<Rightarrow> body_type \<Rightarrow> js_value" where
  "limit_of opts TJson = jsonLimit opts"
| "limit_of opts TForm = formLimit opts"
| "limit_of opts TText = textLimit opts"

fun too_large :: "body_type \<Rightarrow> js_error" where
  "too_large TJson = new_Error ''Request body too large for JSON''"
| "too_large TForm = new_Error ''Request body too large for form''"
| "too_large TText = new_Error ''Request body too large for text''"

text \<open>The context a run ends with, and whether it ended in a call of \<open>next\<close>.\<close>

fun outcome_ctx :: "outcome \<Rightarrow> ctx" where
  "outcome_ctx (ReturnNext c) = c"
| "outcome_ctx (AwaitNext c) = c"
| "outcome_ctx (Return c) = c"
| "outcome_ctx (Throw x c) = c"

fun calls_next :: "outcome \<Rightarrow> bool" where
  "calls_next (ReturnNext c) = True"
| "calls_next (AwaitNext c) = True"
| "calls_next (Return c) = False"
| "calls_next (Throw x c) = False"

text \<open>The decoder of a format, and the end of a run after it: the result is assigned
  to the body slot and \<open>next\<close> awaited, or what the decoder threw is thrown on.\<close>

fun decoder :: "json_parser \<Rightarrow> options \<Rightarrow> body_type \<Rightarrow> blob \<Rightarrow> ctx \<Rightarrow> completion" where
  "decoder J opts TJson = parseJsonFromBlob J opts"
| "decoder J opts TForm = parseFormFromBlob opts"
| "decoder J opts TText = parseTextFromBlob opts"

fun assign_and_continue :: "completion \<Rightarrow> outcome" where
  "assign_and_continue (Normal parsed c) = AwaitNext (c\<lparr>req_body := parsed\<rparr>)"
| "assign_and_continue (Abrupt x c) = Throw x c"

subsection \<open>Extra MIME types\<close>



subsection \<open>Form bodies\<close>

text \<open>
  What the form decoder is to build from the entries of a body: the values of a key in
  the order of the body, the value a key then holds (nothing, a scalar, or the list of
  all), keys in first-seen order, and the keys that are array indices apart from the
  others. \<open>form_inv\<close> is the invariant of the decoder's loop.
\<close>

definition values_of :: "string \<Rightarrow> (string \<times> string) list \<Rightarrow> string list" where
  "values_of k es = map snd (filter (\<lambda>p. fst p = k) es)"

definition aggregated :: "string list \<Rightarrow> js_value" where
  "aggregated vs = (case vs of [] \<Rightarrow> JUndefined | [v] \<Rightarrow> JStr v | _ \<Rightarrow> JArr (map JStr vs))"

definition first_seen :: "'a list \<Rightarrow> 'a list" where
  "first_seen xs = rev (remdups (rev xs))"

definition index_keys :: "string list \<Rightarrow> string list" where
  "index_keys ks = filter is_array_index ks"

definition other_keys :: "string list \<Rightarrow> string list" where
  "other_keys ks = filter (\<lambda>k. \<not> is_array_index k) ks"

definition form_inv :: "props \<Rightarrow> (string \<times> string) list \<Rightarrow> bool" where
  "form_inv obj es =
     (distinct (map fst obj) \<and> set (map fst obj) = fst ` set es
      \<and> (\<forall>k. dict_get obj k = aggregated (values_of k es))
      \<and> map fst obj = index_keys (map fst obj) @ other_keys (map fst obj)
      \<and> sorted (map digits_value (index_keys (map fst obj)))
      \<and> other_keys (map fst obj) = first_seen (other_keys (map fst es)))"

subsection \<open>Limit strings\<close>





section \<open>Example requests and configurations\<close>

text \<open>
  The requests, handlers and options of the test suite. \<open>example_JSON_parse\<close> stands in
  for \<open>JSON.parse\<close>: it knows the document of the tests and rejects every other text
  with a \<open>SyntaxError\<close>.
\<close>

definition test_document :: string where
  "test_document = ''{\"data\":\"test\"}''"

definition example_JSON_parse :: json_parser where
  "example_JSON_parse s =
     (if s = test_document then Inr (JObj [(''data'', JStr ''test'')])
      else Inl (JsError ''SyntaxError'' ''Unexpected token in JSON''))"

definition form_blob :: "string \<Rightarrow> blob" where
  "form_blob body = \<lparr> blob_size = length body, blob_text = body \<rparr>"

definition post_json :: "string \<Rightarrow> ctx" where
  "post_json body = \<lparr> req_method = ''POST'', req_type = Some ''application/json'',
     req_body = JStream,
     req_blob = Inr \<lparr> blob_size = length body, blob_text = body \<rparr>,
     request_clone_blob = Inr \<lparr> blob_size = length body, blob_text = body \<rparr>,
     res_status = 404, res_body = JUndefined \<rparr>"

definition post_form :: "string \<Rightarrow> ctx" where
  "post_form body = (post_json body)\<lparr> req_type := Some ''application/x-www-form-urlencoded'' \<rparr>"

definition get_request :: ctx where
  "get_request = (post_json test_document)\<lparr> req_method := ''GET'' \<rparr>"

definition preset_request :: ctx where
  "preset_request = (post_json test_document)\<lparr> req_body := JObj [(''preSet'', JBool True)] \<rparr>"

text \<open>A request whose body an earlier middleware has consumed: the read is rejected.\<close>

definition consumed_request :: ctx where
  "consumed_request = (post_json test_document)
     \<lparr> request_clone_blob := Inl (JsError ''TypeError'' ''Body is unusable'') \<rparr>"


text \<open>An error handler that answers 422 with a fixed text, and a downstream handler that
  answers with the body slot.\<close>

definition custom_handler :: "js_error \<Rightarrow> ctx \<Rightarrow> ctx" where
  "custom_handler err c = c\<lparr> res_status := 422, res_body := JStr ''Custom error'' \<rparr>"

definition echo_downstream :: "ctx \<Rightarrow> completion" where
  "echo_downstream c = Normal JUndefined (c\<lparr> res_status := 200, res_body := req_body c \<rparr>)"

definition json_only :: options where
  "json_only = defaults\<lparr> enableTypes := JArr [JStr ''json''] \<rparr>"

definition lowercase_methods :: options where
  "lowercase_methods = defaults\<lparr> parsedMethods := Some [''post''] \<rparr>"

definition handled :: options where
  "handled = defaults\<lparr> onError := Some custom_handler \<rparr>"

definition small_json_limit :: options where
  "small_json_limit = handled\<lparr> jsonLimit := JStr ''10b'' \<rparr>"



text \<open>Options whose three registries all hold \<open>application/json\<close>, and the options of
  the test of extended types, with entries that are not strings.\<close>

definition overlap_opts :: options where
  "overlap_opts = defaults\<lparr> enableTypes := JArr [JStr ''json'', JStr ''form'', JStr ''text''],
     extendTypes_form := JArr [JStr ''application/json''],
     extendTypes_text := JArr [JStr ''application/json''] \<rparr>"


section \<open>Properties\<close>

subsection \<open>Characters\<close>

lemma char_code_char_of [simp]: "n < 256 \<Longrightarrow> char_code (char_of n) = n"
  by (simp add: char_code_def)

lemma toLowerCase_char_code:
  "char_code (toLowerCase_char c) = (if is_upper c then char_code c + 32 else char_code c)"
  by (simp add: toLowerCase_char_def is_upper_def)

lemma char_code_inject: "char_code a = char_code b \<longleftrightarrow> a = b"
  by (simp add: char_code_def)

subsection \<open>Outcomes of the middleware\<close>

lemma body_skip_method:
  "\<not> methodShouldParse opts (req_method c) \<Longrightarrow> hoaBodyParser_body J opts c = ReturnNext c"
  by (simp add: hoaBodyParser_body_def)

lemma body_skip_slot:
  "req_body c \<noteq> JUndefined \<Longrightarrow> req_body c \<noteq> JStream \<Longrightarrow> hoaBodyParser_body J opts c = ReturnNext c"
  by (simp add: hoaBodyParser_body_def)

lemma body_skip_type:
  "parseAs opts (req_type c) = None \<Longrightarrow> hoaBodyParser_body J opts c = ReturnNext c"
  by (simp add: hoaBodyParser_body_def)

lemma parseAs_None_iff:
  "parseAs opts r = None \<longleftrightarrow> (\<forall>t. isEnabled opts t \<longrightarrow> \<not> matchTypes opts r t)"
proof
  assume "parseAs opts r = None"
  then have "\<not> (isEnabled opts TJson \<and> matchTypes opts r TJson)"
    "\<not> (isEnabled opts TForm \<and> matchTypes opts r TForm)"
    "\<not> (isEnabled opts TText \<and> matchTypes opts r TText)"
    by (auto simp: parseAs_def split: if_splits)
  then show "\<forall>t. isEnabled opts t \<longrightarrow> \<not> matchTypes opts r t"
    by (metis body_type.exhaust)
next
  assume "\<forall>t. isEnabled opts t \<longrightarrow> \<not> matchTypes opts r t"
  then show "parseAs opts r = None"
    by (simp add: parseAs_def)
qed

lemma body_read_failure:
  assumes "reaches_decoder opts c t" and "read_blob opts c = Inl e"
  shows "hoaBodyParser_body J opts c =
     (case onError opts of Some h \<Rightarrow> Return (h e c)
      | None \<Rightarrow> Throw (HttpError 400 (message e) e) c)"
  using assms
  by (auto simp: hoaBodyParser_body_def reaches_decoder_def throwOrHandle_def split: option.splits)

lemma body_decoded:
  assumes "reaches_decoder opts c t" and "read_blob opts c = Inr b"
  shows "hoaBodyParser_body J opts c =
     (case (case t of TJson \<Rightarrow> parseJsonFromBlob J opts b c
            | TForm \<Rightarrow> parseFormFromBlob opts b c
            | TText \<Rightarrow> parseTextFromBlob opts b c) of
        Normal parsed c' \<Rightarrow> AwaitNext (c'\<lparr>req_body := parsed\<rparr>)
      | Abrupt x c' \<Rightarrow> Throw x c')"
  using assms
  by (auto simp: hoaBodyParser_body_def reaches_decoder_def)

lemma decoder_oversize:
  assumes "parseLimit (limit_of opts t) = Inr limit" and "size_exceeds (blob_size b) limit"
  shows "(case t of TJson \<Rightarrow> parseJsonFromBlob J opts b c
          | TForm \<Rightarrow> parseFormFromBlob opts b c
          | TText \<Rightarrow> parseTextFromBlob opts b c) = throwOrHandle opts c (too_large t) 413"
  using assms
  by (cases t) (simp_all add: parseJsonFromBlob_def parseFormFromBlob_def parseTextFromBlob_def)


lemma decoder_json_syntax:
  assumes "parseLimit (jsonLimit opts) = Inr limit" and "\<not> size_exceeds (blob_size b) limit"
    and "J (blob_text b) = Inl e"
  shows "parseJsonFromBlob J opts b c =
     (case onError opts of Some h \<Rightarrow> Normal JUndefined (h e c)
      | None \<Rightarrow> Abrupt (HttpError 400 (message e) e) c)"
  using assms
  by (simp add: parseJsonFromBlob_def throwOrHandle_def split: option.splits)

lemma body_oversize:
  assumes "reaches_decoder opts c t" and "read_blob opts c = Inr b"
    and "parseLimit (limit_of opts t) = Inr limit" and "size_exceeds (blob_size b) limit"
  shows "hoaBodyParser_body J opts c =
     (case onError opts of Some h \<Rightarrow> AwaitNext ((h (too_large t) c)\<lparr>req_body := JUndefined\<rparr>)
      | None \<Rightarrow> Throw (HttpError 413 (message (too_large t)) (too_large t)) c)"
  by (simp add: body_decoded [OF assms(1,2)] decoder_oversize [OF assms(3,4)] throwOrHandle_def
      split: option.splits)

lemma body_json_syntax:
  assumes "reaches_decoder opts c TJson" and "read_blob opts c = Inr b"
    and "parseLimit (jsonLimit opts) = Inr limit" and "\<not> size_exceeds (blob_size b) limit"
    and "J (blob_text b) = Inl e"
  shows "hoaBodyParser_body J opts c =
     (case onError opts of Some h \<Rightarrow> AwaitNext ((h e c)\<lparr>req_body := JUndefined\<rparr>)
      | None \<Rightarrow> Throw (HttpError 400 (message e) e) c)"
  by (simp add: body_decoded [OF assms(1,2)] decoder_json_syntax [of opts limit b J e, OF assms(3,4,5)]
      split: option.splits)


subsection \<open>Dispatch\<close>

text \<open>
  C8. When a content type is in the registry of more than one enabled format, the
  decoder is chosen by the fixed precedence json, form, text: the format parsed is the
  first of that list that is enabled and whose registry holds the content type, and the
  middleware runs the decoder of that format on the body it read.
\<close>

theorem parseAs_precedence:
  "parseAs opts reqType =
     find (\<lambda>t. isEnabled opts t \<and> matchTypes opts reqType t) [TJson, TForm, TText]
   \<and> (methodShouldParse opts (req_method c) \<and> (req_body c = JUndefined \<or> req_body c = JStream)
        \<and> read_blob opts c = Inr b \<longrightarrow>
        hoaBodyParser_body J opts c =
          (case find (\<lambda>t. isEnabled opts t \<and> matchTypes opts (req_type c) t) [TJson, TForm, TText] of
             None \<Rightarrow> ReturnNext c
           | Some t \<Rightarrow> assign_and_continue (decoder J opts t b c)))"
proof (intro conjI impI)
  show p: "parseAs opts r =
     find (\<lambda>t. isEnabled opts t \<and> matchTypes opts r t) [TJson, TForm, TText]" for r
    by (simp add: parseAs_def)
  assume a: "methodShouldParse opts (req_method c) \<and> (req_body c = JUndefined \<or> req_body c = JStream)
        \<and> read_blob opts c = Inr b"
  show "hoaBodyParser_body J opts c =
          (case find (\<lambda>t. isEnabled opts t \<and> matchTypes opts (req_type c) t) [TJson, TForm, TText] of
             None \<Rightarrow> ReturnNext c
           | Some t \<Rightarrow> assign_and_continue (decoder J opts t b c))"
  proof (cases "parseAs opts (req_type c)")
    case None
    then show ?thesis
      unfolding p [symmetric] by (simp add: body_skip_type)
  next
    case (Some t)
    with a have r: "reaches_decoder opts c t"
      by (simp add: reaches_decoder_def)
    have "hoaBodyParser_body J opts c = assign_and_continue (decoder J opts t b c)"
      using body_decoded [OF r, of b J] a
      by (cases t; cases "decoder J opts t b c"; simp)
    with Some show ?thesis
      unfolding p [symmetric] by simp
  qed
qed

theorem parseAs_precedence_witness:
  "parseAs overlap_opts (Some ''application/json'') = Some TJson
   \<and> matchTypes overlap_opts (Some ''application/json'') TForm
   \<and> matchTypes overlap_opts (Some ''application/json'') TText
   \<and> hoaBodyParser_body example_JSON_parse overlap_opts (post_json test_document)
       = AwaitNext ((post_json test_document)\<lparr>req_body := JObj [(''data'', JStr ''test'')]\<rparr>)"
proof -
  let ?c = "post_json test_document"
  let ?b = "\<lparr> blob_size = 15, blob_text = test_document \<rparr>"
  have f: "find (\<lambda>t. isEnabled overlap_opts t \<and> matchTypes overlap_opts (Some ''application/json'') t)
        [TJson, TForm, TText] = Some TJson"
    by code_simp
  have m: "matchTypes overlap_opts (Some ''application/json'') TForm"
    "matchTypes overlap_opts (Some ''application/json'') TText"
    by code_simp+
  have a: "methodShouldParse overlap_opts (req_method ?c) \<and> (req_body ?c = JUndefined \<or> req_body ?c = JStream)
        \<and> read_blob overlap_opts ?c = Inr ?b"
    by code_simp
  have t: "req_type ?c = Some ''application/json''"
    by code_simp
  have d: "assign_and_continue (decoder example_JSON_parse overlap_opts TJson ?b ?c)
      = AwaitNext (?c\<lparr>req_body := JObj [(''data'', JStr ''test'')]\<rparr>)"
    by code_simp
  note w = parseAs_precedence [of overlap_opts "Some ''application/json''" ?c ?b example_JSON_parse]
  from w f have p: "parseAs overlap_opts (Some ''application/json'') = Some TJson"
    by simp
  from w a f d have h: "hoaBodyParser_body example_JSON_parse overlap_opts ?c
       = AwaitNext (?c\<lparr>req_body := JObj [(''data'', JStr ''test'')]\<rparr>)"
    unfolding t by simp
  from p m h show ?thesis by blast
qed

subsection \<open>Skipped requests\<close>

text \<open>
  C5. A request is skipped when its method is not parsed, or its body slot already holds
  a value that is not the stream, or its content type matches the registry of no enabled
  format. The middleware then leaves the context as it is, the body slot included, and
  ends with \<open>return next()\<close> on that context: with any continuation, the whole run is
  the continuation's run, as if the middleware were absent.
\<close>

theorem skip_leaves_request_untouched:
  assumes "\<not> methodShouldParse opts (req_method c)
     \<or> (req_body c \<noteq> JUndefined \<and> req_body c \<noteq> JStream)
     \<or> (\<forall>t. isEnabled opts t \<longrightarrow> \<not> matchTypes opts (req_type c) t)"
  shows "hoaBodyParser_body J opts c = ReturnNext c
     \<and> req_body (outcome_ctx (hoaBodyParser_body J opts c)) = req_body c
     \<and> hoaBodyParser J opts c next = next c"
proof -
  have "hoaBodyParser_body J opts c = ReturnNext c"
  proof -
    consider (m) "\<not> methodShouldParse opts (req_method c)"
      | (s) "req_body c \<noteq> JUndefined" "req_body c \<noteq> JStream"
      | (t) "\<forall>t. isEnabled opts t \<longrightarrow> \<not> matchTypes opts (req_type c) t"
      using assms by blast
    then show ?thesis
    proof cases
      case m
      then show ?thesis by (rule body_skip_method)
    next
      case s
      then show ?thesis by (rule body_skip_slot)
    next
      case t
      then have "parseAs opts (req_type c) = None"
        by (simp only: parseAs_None_iff)
      then show ?thesis by (rule body_skip_type)
    qed
  qed
  then show ?thesis
    by (simp add: hoaBodyParser_def)
qed

theorem skip_leaves_request_untouched_witness:
  "hoaBodyParser example_JSON_parse defaults get_request echo_downstream = echo_downstream get_request
   \<and> hoaBodyParser example_JSON_parse defaults preset_request echo_downstream = echo_downstream preset_request
   \<and> hoaBodyParser example_JSON_parse json_only (post_form ''name=test'') echo_downstream
       = echo_downstream (post_form ''name=test'')
   \<and> req_body (outcome_ctx (hoaBodyParser_body example_JSON_parse defaults preset_request))
       = JObj [(''preSet'', JBool True)]"
proof -
  have a: "\<not> methodShouldParse defaults (req_method get_request)"
    by code_simp
  have b: "req_body preset_request \<noteq> JUndefined \<and> req_body preset_request \<noteq> JStream"
    by code_simp
  have "parseAs json_only (req_type (post_form ''name=test'')) = None"
    by code_simp
  then have c: "\<forall>t. isEnabled json_only t \<longrightarrow> \<not> matchTypes json_only (req_type (post_form ''name=test'')) t"
    by (simp only: parseAs_None_iff)
  have d: "req_body preset_request = JObj [(''preSet'', JBool True)]"
    by code_simp
  show ?thesis
    using skip_leaves_request_untouched [of defaults get_request example_JSON_parse echo_downstream]
      skip_leaves_request_untouched [of defaults preset_request example_JSON_parse echo_downstream]
      skip_leaves_request_untouched [of json_only "post_form ''name=test''" example_JSON_parse echo_downstream]
      a b c d
    by simp
qed

subsection \<open>The method check\<close>

text \<open>
  C7, as amended. Parsing goes past the method check exactly when the upper-cased request
  method is an element of the configured list as it was configured: the list itself is
  not upper-cased. When every configured entry is in upper case this is the
  case-insensitive comparison of the method with the list. Otherwise the request is
  skipped entirely.
\<close>

theorem method_check_uppercases_request_only:
  "(methodShouldParse opts m \<longleftrightarrow> (\<exists>ms. parsedMethods opts = Some ms \<and> toUpperCase m \<in> set ms))
   \<and> (parsedMethods opts = Some ms \<and> (\<forall>x\<in>set ms. toUpperCase x = x)
        \<longrightarrow> (methodShouldParse opts m \<longleftrightarrow> toUpperCase m \<in> toUpperCase ` set ms))
   \<and> (\<not> methodShouldParse opts (req_method c) \<longrightarrow> hoaBodyParser_body J opts c = ReturnNext c)"
proof (intro conjI impI)
  show "methodShouldParse opts m \<longleftrightarrow> (\<exists>ms. parsedMethods opts = Some ms \<and> toUpperCase m \<in> set ms)"
    by (simp add: methodShouldParse_def split: option.splits)
next
  assume a: "parsedMethods opts = Some ms \<and> (\<forall>x\<in>set ms. toUpperCase x = x)"
  then have "toUpperCase ` set ms = set ms"
    by force
  with a show "methodShouldParse opts m \<longleftrightarrow> toUpperCase m \<in> toUpperCase ` set ms"
    by (simp add: methodShouldParse_def)
next
  assume "\<not> methodShouldParse opts (req_method c)"
  then show "hoaBodyParser_body J opts c = ReturnNext c"
    by (rule body_skip_method)
qed

text \<open>The claim as stated fails: with \<open>['post']\<close> configured, the method \<open>POST\<close>
  equals an entry up to case, and the request is skipped.\<close>

theorem method_check_counterexample:
  "toUpperCase ''POST'' \<in> toUpperCase ` set [''post'']
   \<and> parsedMethods lowercase_methods = Some [''post'']
   \<and> \<not> methodShouldParse lowercase_methods ''POST''
   \<and> hoaBodyParser_body example_JSON_parse lowercase_methods (post_json test_document)
       = ReturnNext (post_json test_document)"
  by code_simp

theorem method_check_witness:
  "methodShouldParse defaults ''post''
   \<and> methodShouldParse defaults ''Patch''
   \<and> toUpperCase ''post'' \<in> toUpperCase ` set [''POST'', ''PUT'', ''PATCH'']
   \<and> \<not> methodShouldParse defaults (req_method get_request)
   \<and> hoaBodyParser_body example_JSON_parse defaults get_request = ReturnNext get_request"
proof -
  have a: "parsedMethods defaults = Some [''POST'', ''PUT'', ''PATCH'']"
    by (simp add: defaults_def)
  have b: "toUpperCase ''post'' \<in> set [''POST'', ''PUT'', ''PATCH'']"
    "toUpperCase ''Patch'' \<in> set [''POST'', ''PUT'', ''PATCH'']"
    by code_simp+
  have c: "\<forall>x\<in>set [''POST'', ''PUT'', ''PATCH'']. toUpperCase x = x"
    by code_simp
  have d: "toUpperCase (req_method get_request) \<notin> set [''POST'', ''PUT'', ''PATCH'']"
    by code_simp
  show ?thesis
    using method_check_uppercases_request_only
            [of defaults "''post''" "[''POST'', ''PUT'', ''PATCH'']" get_request example_JSON_parse]
      method_check_uppercases_request_only
            [of defaults "''Patch''" "[''POST'', ''PUT'', ''PATCH'']" get_request example_JSON_parse]
      method_check_uppercases_request_only
            [of defaults "req_method get_request" "[''POST'', ''PUT'', ''PATCH'']" get_request example_JSON_parse]
      a b c d
    by simp
qed

subsection \<open>Example requests that reach a decoder\<close>

lemma ex_reaches: "reaches_decoder handled (post_json body) TJson"
  by code_simp

lemma ex_reaches_consumed: "reaches_decoder handled consumed_request TJson"
  by code_simp

lemma ex_reaches_small: "reaches_decoder small_json_limit (post_json body) TJson"
  by code_simp




subsection \<open>Handled errors and the continuation\<close>

text \<open>
  C9. With an error callback configured, what the middleware does next depends on the
  kind of error. After a failed body read it returns the callback's context and never
  calls \<open>next\<close>. After an oversize error, or a JSON syntax error, that the callback
  handled, the decoder's result is \<open>undefined\<close>: the middleware assigns it to the body
  slot and awaits \<open>next\<close> on that context, so the downstream handlers run.
\<close>

theorem handled_errors_differ_in_continuation:
  assumes "reaches_decoder opts c t" and "onError opts = Some h"
  shows "(read_blob opts c = Inl e \<longrightarrow>
            hoaBodyParser_body J opts c = Return (h e c)
            \<and> \<not> calls_next (hoaBodyParser_body J opts c)
            \<and> hoaBodyParser J opts c nxt = Normal JUndefined (h e c))
     \<and> (read_blob opts c = Inr b \<and> parseLimit (limit_of opts t) = Inr limit
          \<and> size_exceeds (blob_size b) limit \<longrightarrow>
            hoaBodyParser_body J opts c = AwaitNext ((h (too_large t) c)\<lparr>req_body := JUndefined\<rparr>)
            \<and> calls_next (hoaBodyParser_body J opts c)
            \<and> hoaBodyParser J opts c nxt =
                (case nxt ((h (too_large t) c)\<lparr>req_body := JUndefined\<rparr>) of
                   Normal r c' \<Rightarrow> Normal JUndefined c' | Abrupt x c' \<Rightarrow> Abrupt x c'))
     \<and> (t = TJson \<and> read_blob opts c = Inr b \<and> parseLimit (jsonLimit opts) = Inr limit
          \<and> \<not> size_exceeds (blob_size b) limit \<and> J (blob_text b) = Inl e \<longrightarrow>
            hoaBodyParser_body J opts c = AwaitNext ((h e c)\<lparr>req_body := JUndefined\<rparr>)
            \<and> calls_next (hoaBodyParser_body J opts c)
            \<and> hoaBodyParser J opts c nxt =
                (case nxt ((h e c)\<lparr>req_body := JUndefined\<rparr>) of
                   Normal r c' \<Rightarrow> Normal JUndefined c' | Abrupt x c' \<Rightarrow> Abrupt x c'))"
proof (intro conjI impI)
  assume "read_blob opts c = Inl e"
  then have r: "hoaBodyParser_body J opts c = Return (h e c)"
    using body_read_failure [OF assms(1), of e J] assms(2) by simp
  show "hoaBodyParser_body J opts c = Return (h e c)" by (rule r)
  show "\<not> calls_next (hoaBodyParser_body J opts c)" by (simp add: r)
  show "hoaBodyParser J opts c nxt = Normal JUndefined (h e c)"
    by (simp add: hoaBodyParser_def r)
next
  assume a: "read_blob opts c = Inr b \<and> parseLimit (limit_of opts t) = Inr limit
     \<and> size_exceeds (blob_size b) limit"
  then have r: "hoaBodyParser_body J opts c = AwaitNext ((h (too_large t) c)\<lparr>req_body := JUndefined\<rparr>)"
    using body_oversize [OF assms(1), of b limit J] assms(2) by simp
  show "hoaBodyParser_body J opts c = AwaitNext ((h (too_large t) c)\<lparr>req_body := JUndefined\<rparr>)"
    by (rule r)
  show "calls_next (hoaBodyParser_body J opts c)" by (simp add: r)
  show "hoaBodyParser J opts c nxt =
      (case nxt ((h (too_large t) c)\<lparr>req_body := JUndefined\<rparr>) of
         Normal r c' \<Rightarrow> Normal JUndefined c' | Abrupt x c' \<Rightarrow> Abrupt x c')"
    by (simp add: hoaBodyParser_def r)
next
  assume a: "t = TJson \<and> read_blob opts c = Inr b \<and> parseLimit (jsonLimit opts) = Inr limit
     \<and> \<not> size_exceeds (blob_size b) limit \<and> J (blob_text b) = Inl e"
  then have "reaches_decoder opts c TJson"
    using assms(1) by simp
  then have r: "hoaBodyParser_body J opts c = AwaitNext ((h e c)\<lparr>req_body := JUndefined\<rparr>)"
    using body_json_syntax [of opts c b limit J e] a assms(2) by simp
  show "hoaBodyParser_body J opts c = AwaitNext ((h e c)\<lparr>req_body := JUndefined\<rparr>)"
    by (rule r)
  show "calls_next (hoaBodyParser_body J opts c)" by (simp add: r)
  show "hoaBodyParser J opts c nxt =
      (case nxt ((h e c)\<lparr>req_body := JUndefined\<rparr>) of
         Normal r c' \<Rightarrow> Normal JUndefined c' | Abrupt x c' \<Rightarrow> Abrupt x c')"
    by (simp add: hoaBodyParser_def r)
qed

theorem handled_errors_differ_in_continuation_witness:
  "hoaBodyParser_body example_JSON_parse handled consumed_request
     = Return (custom_handler (JsError ''TypeError'' ''Body is unusable'') consumed_request)
   \<and> hoaBodyParser_body example_JSON_parse small_json_limit (post_json test_document)
     = AwaitNext ((custom_handler (too_large TJson) (post_json test_document))\<lparr>req_body := JUndefined\<rparr>)
   \<and> hoaBodyParser_body example_JSON_parse handled (post_json ''{bad json'')
     = AwaitNext ((custom_handler (JsError ''SyntaxError'' ''Unexpected token in JSON'')
         (post_json ''{bad json''))\<lparr>req_body := JUndefined\<rparr>)"
proof -
  have h: "onError handled = Some custom_handler" "onError small_json_limit = Some custom_handler"
    by (simp_all add: handled_def small_json_limit_def defaults_def)
  have f1: "read_blob handled consumed_request = Inl (JsError ''TypeError'' ''Body is unusable'')"
    by code_simp
  have f2: "read_blob small_json_limit (post_json test_document)
       = Inr \<lparr> blob_size = 15, blob_text = test_document \<rparr>
     \<and> parseLimit (limit_of small_json_limit TJson) = Inr (Finite 10)
     \<and> size_exceeds (blob_size \<lparr> blob_size = 15, blob_text = test_document \<rparr>) (Finite 10)"
    by code_simp
  have f3: "TJson = TJson \<and> read_blob handled (post_json ''{bad json'')
       = Inr \<lparr> blob_size = 9, blob_text = ''{bad json'' \<rparr>
     \<and> parseLimit (jsonLimit handled) = Inr (Finite 1048576)
     \<and> \<not> size_exceeds (blob_size \<lparr> blob_size = 9, blob_text = ''{bad json'' \<rparr>) (Finite 1048576)
     \<and> example_JSON_parse (blob_text \<lparr> blob_size = 9, blob_text = ''{bad json'' \<rparr>)
         = Inl (JsError ''SyntaxError'' ''Unexpected token in JSON'')"
    by code_simp
  note w1 = handled_errors_differ_in_continuation [OF ex_reaches_consumed h(1),
      where e = "JsError ''TypeError'' ''Body is unusable''" and J = example_JSON_parse
        and nxt = echo_downstream]
  note w2 = handled_errors_differ_in_continuation [OF ex_reaches_small h(2),
      where J = example_JSON_parse and nxt = echo_downstream
        and b = "\<lparr> blob_size = 15, blob_text = test_document \<rparr>" and limit = "Finite 10"]
  note w3 = handled_errors_differ_in_continuation [OF ex_reaches h(1),
      where e = "JsError ''SyntaxError'' ''Unexpected token in JSON''" and J = example_JSON_parse
        and nxt = echo_downstream
        and b = "\<lparr> blob_size = 9, blob_text = ''{bad json'' \<rparr>" and limit = "Finite 1048576"]
  from w1 f1 have a: "hoaBodyParser_body example_JSON_parse handled consumed_request
     = Return (custom_handler (JsError ''TypeError'' ''Body is unusable'') consumed_request)"
    by blast
  from w2 f2 have b: "hoaBodyParser_body example_JSON_parse small_json_limit (post_json test_document)
     = AwaitNext ((custom_handler (too_large TJson) (post_json test_document))\<lparr>req_body := JUndefined\<rparr>)"
    by blast
  from w3 f3 have c: "hoaBodyParser_body example_JSON_parse handled (post_json ''{bad json'')
     = AwaitNext ((custom_handler (JsError ''SyntaxError'' ''Unexpected token in JSON'')
         (post_json ''{bad json''))\<lparr>req_body := JUndefined\<rparr>)"
    by blast
  from a b c show ?thesis by blast
qed

subsection \<open>The error funnel\<close>




subsection \<open>The body slot after a failed decode\<close>




subsection \<open>MIME registries\<close>
















subsection \<open>The form decoder\<close>

lemma first_seen_snoc:
  "first_seen (xs @ [x]) = (if x \<in> set xs then first_seen xs else first_seen xs @ [x])"
  by (simp add: first_seen_def)

lemma first_seen_Nil [simp]: "first_seen [] = []"
  by (simp add: first_seen_def)

lemma set_first_seen [simp]: "set (first_seen xs) = set xs"
  by (simp add: first_seen_def)

lemma map_of_replace_prop:
  "map_of (replace_prop k v obj) k' =
     (if k' = k \<and> k \<in> fst ` set obj then Some v else map_of obj k')"
proof (induction obj arbitrary: k')
  case Nil
  show ?case by simp
next
  case (Cons a obj)
  obtain k1 v1 where a: "a = (k1, v1)" by (cases a)
  show ?case
  proof (cases "k1 = k")
    case True
    then show ?thesis by (simp add: a)
  next
    case False
    then show ?thesis by (simp add: a Cons.IH)
  qed
qed

lemma keys_replace_prop [simp]: "map fst (replace_prop k v obj) = map fst obj"
proof (induction obj)
  case Nil
  show ?case by simp
next
  case (Cons a obj)
  obtain k1 v1 where a: "a = (k1, v1)" by (cases a)
  show ?case
    using Cons.IH by (simp add: a)
qed

lemma map_of_insert_index:
  "k \<notin> fst ` set obj \<Longrightarrow>
     map_of (insert_index k v obj) k' = (if k' = k then Some v else map_of obj k')"
proof (induction obj arbitrary: k')
  case Nil
  show ?case by simp
next
  case (Cons a obj)
  obtain k1 v1 where a: "a = (k1, v1)" by (cases a)
  from Cons.prems have n: "k \<notin> fst ` set obj" and d: "k \<noteq> k1"
    by (auto simp: a)
  show ?case
    using Cons.IH [OF n] d by (auto simp: a)
qed

lemma map_of_snoc:
  "k \<notin> fst ` set obj \<Longrightarrow>
     map_of (obj @ [(k, v)]) k' = (if k' = k then Some v else map_of obj k')"
proof (induction obj arbitrary: k')
  case Nil
  show ?case by simp
next
  case (Cons a obj)
  obtain k1 v1 where a: "a = (k1, v1)" by (cases a)
  from Cons.prems have n: "k \<notin> fst ` set obj" and d: "k \<noteq> k1"
    by (auto simp: a)
  show ?case
    using Cons.IH [OF n] d by (auto simp: a simp del: map_of_append)
qed

lemma map_of_dict_set:
  "map_of (dict_set obj k v) k' = (if k' = k then Some v else map_of obj k')"
  by (simp add: dict_set_def map_of_replace_prop map_of_insert_index map_of_snoc del: map_of_append)

lemma dict_get_dict_set:
  "dict_get (dict_set obj k v) k' = (if k' = k then v else dict_get obj k')"
  by (simp add: dict_get_def map_of_dict_set)

lemma insert_index_keys:
  assumes "list_all is_array_index is" and "list_all (\<lambda>k. \<not> is_array_index k) ns"
    and "map fst obj = is @ ns"
  shows "map fst (insert_index k v obj) = insort_key digits_value k is @ ns"
  using assms
proof (induction "is" arbitrary: obj)
  case Nil
  then show ?case
    by (cases obj) auto
next
  case (Cons i "is")
  then obtain v' ps where obj: "obj = (i, v') # ps" and ps: "map fst ps = is @ ns"
    by (cases obj) auto
  from Cons.prems have i: "is_array_index i" and rest: "list_all is_array_index is"
    by simp_all
  show ?case
  proof (cases "digits_value i < digits_value k")
    case True
    then show ?thesis
      using Cons.IH [OF rest Cons.prems(2) ps] obj i by simp
  next
    case False
    then show ?thesis
      using obj ps i by simp
  qed
qed

lemma keys_split:
  "list_all is_array_index (index_keys ks) \<and> list_all (\<lambda>k. \<not> is_array_index k) (other_keys ks)"
  by (simp add: index_keys_def other_keys_def list_all_iff)

lemma index_keys_append_other:
  assumes "list_all is_array_index is" and "list_all (\<lambda>k. \<not> is_array_index k) ns"
  shows "index_keys (is @ ns) = is" and "other_keys (is @ ns) = ns"
  using assms by (simp_all add: index_keys_def other_keys_def list_all_iff)

lemma values_of_snoc:
  "values_of k' (es @ [(k, v)]) = values_of k' es @ (if k' = k then [v] else [])"
  by (simp add: values_of_def)

lemma values_of_Nil_iff: "values_of k es = [] \<longleftrightarrow> k \<notin> fst ` set es"
  by (auto simp: values_of_def filter_empty_conv)

text \<open>One more occurrence of a key: the first makes a scalar, the second a list of two,
  every later one appends.\<close>

lemma aggregated_snoc:
  "aggregated (vs @ [v]) =
     (case vs of [] \<Rightarrow> JStr v | [x] \<Rightarrow> JArr [JStr x, JStr v]
      | _ \<Rightarrow> JArr (map JStr vs @ [JStr v]))"
  by (cases vs rule: list.exhaust; simp add: aggregated_def split: list.splits)

lemma form_step_dict_set:
  assumes "dict_get obj k = aggregated vs" and "vs \<noteq> [] \<longrightarrow> k \<in> fst ` set obj"
  shows "form_step obj (k, v) = dict_set obj k (aggregated (vs @ [v]))"
proof (cases vs)
  case Nil
  with assms show ?thesis
    by (simp add: aggregated_def)
next
  case (Cons x xs)
  with assms(2) have k: "k \<in> fst ` set obj" by simp
  show ?thesis
  proof (cases xs)
    case Nil
    with Cons assms(1) show ?thesis
      by (simp add: aggregated_def)
  next
    case (Cons y ys)
    with \<open>vs = x # xs\<close> assms(1) k show ?thesis
      by (simp add: aggregated_def dict_set_def)
  qed
qed

lemma keys_dict_set:
  assumes "map fst obj = index_keys (map fst obj) @ other_keys (map fst obj)"
  shows "map fst (dict_set obj k v) =
     (if k \<in> set (map fst obj) then map fst obj
      else if is_array_index k
        then insort_key digits_value k (index_keys (map fst obj)) @ other_keys (map fst obj)
      else map fst obj @ [k])"
proof -
  have "is_array_index k \<Longrightarrow> map fst (insert_index k v obj) =
      insort_key digits_value k (index_keys (map fst obj)) @ other_keys (map fst obj)"
    using insert_index_keys [of "index_keys (map fst obj)" "other_keys (map fst obj)" obj k v]
      keys_split [of "map fst obj"] assms by simp
  then show ?thesis
    by (simp add: dict_set_def)
qed

lemma other_keys_snoc:
  "other_keys (ks @ [k]) = other_keys ks @ (if is_array_index k then [] else [k])"
  by (simp add: other_keys_def)

lemma index_keys_snoc:
  "index_keys (ks @ [k]) = index_keys ks @ (if is_array_index k then [k] else [])"
  by (simp add: index_keys_def)

lemma set_other_keys: "set (other_keys ks) = {k \<in> set ks. \<not> is_array_index k}"
  by (simp add: other_keys_def)

lemma set_index_keys: "set (index_keys ks) = {k \<in> set ks. is_array_index k}"
  by (simp add: index_keys_def)

lemma form_inv_step:
  assumes "form_inv obj es"
  shows "form_inv (form_step obj (k, v)) (es @ [(k, v)])"
proof -
  let ?ks = "map fst obj"
  let ?val = "aggregated (values_of k es @ [v])"
  let ?obj' = "dict_set obj k ?val"
  from assms have d: "distinct ?ks" and s: "set ?ks = fst ` set es"
    and g: "\<forall>k. dict_get obj k = aggregated (values_of k es)"
    and sp: "?ks = index_keys ?ks @ other_keys ?ks"
    and so: "sorted (map digits_value (index_keys ?ks))"
    and fs: "other_keys ?ks = first_seen (other_keys (map fst es))"
    unfolding form_inv_def by blast+
  have "values_of k es \<noteq> [] \<longrightarrow> k \<in> fst ` set obj"
    using s by (simp add: values_of_Nil_iff)
  then have step: "form_step obj (k, v) = ?obj'"
    using form_step_dict_set [of obj k "values_of k es" v] g by blast
  have get: "\<And>k'. dict_get ?obj' k' = aggregated (values_of k' (es @ [(k, v)]))"
    by (simp add: dict_get_dict_set values_of_snoc g)
  note keys = keys_dict_set [OF sp, of k ?val]
  have "distinct (map fst ?obj') \<and> set (map fst ?obj') = fst ` set (es @ [(k, v)])
      \<and> map fst ?obj' = index_keys (map fst ?obj') @ other_keys (map fst ?obj')
      \<and> sorted (map digits_value (index_keys (map fst ?obj')))
      \<and> other_keys (map fst ?obj') = first_seen (other_keys (map fst (es @ [(k, v)])))"
  proof (cases "k \<in> set ?ks")
    case True
    then have k': "map fst ?obj' = ?ks" using keys by simp
    have "other_keys (map fst (es @ [(k, v)])) = other_keys (map fst es) @ (if is_array_index k then [] else [k])"
      by (simp add: other_keys_snoc)
    moreover have "\<not> is_array_index k \<Longrightarrow> k \<in> set (other_keys (map fst es))"
      using True s by (simp add: set_other_keys)
    ultimately have "first_seen (other_keys (map fst (es @ [(k, v)]))) = first_seen (other_keys (map fst es))"
      by (simp add: first_seen_snoc)
    with True d s sp so fs show ?thesis
      unfolding k' by auto
  next
    case False
    show ?thesis
    proof (cases "is_array_index k")
      case True
      let ?is = "insort_key digits_value k (index_keys ?ks)"
      from False True have k': "map fst ?obj' = ?is @ other_keys ?ks"
        using keys by simp
      have a: "list_all is_array_index ?is"
        using True by (simp add: list_all_iff set_insort_key set_index_keys)
      have b: "list_all (\<lambda>k. \<not> is_array_index k) (other_keys ?ks)"
        by (simp add: keys_split)
      have i: "index_keys (?is @ other_keys ?ks) = ?is"
        and o: "other_keys (?is @ other_keys ?ks) = other_keys ?ks"
        using index_keys_append_other [OF a b] by simp_all
      have di: "distinct (index_keys ?ks)" "distinct (other_keys ?ks)"
        using d by (simp_all add: index_keys_def other_keys_def)
      have dis: "distinct (?is @ other_keys ?ks)"
        using di False True
        by (auto simp: distinct_insort set_insort_key set_index_keys set_other_keys)
      have st: "set (?is @ other_keys ?ks) = insert k (set ?ks)"
        by (auto simp: set_insort_key set_index_keys set_other_keys)
      have srt: "sorted (map digits_value ?is)"
        using so by (simp add: sorted_insort_key)
      have "other_keys (map fst (es @ [(k, v)])) = other_keys (map fst es)"
        using True by (simp add: other_keys_snoc)
      with dis st srt fs s show ?thesis
        unfolding k' i o by simp
    next
      case nonidx: False
      from False nonidx have k': "map fst ?obj' = ?ks @ [k]"
        using keys by simp
      have "k \<notin> set (other_keys (map fst es))"
        using False s by (simp add: set_other_keys)
      then have "first_seen (other_keys (map fst (es @ [(k, v)]))) = first_seen (other_keys (map fst es)) @ [k]"
        using nonidx by (simp add: other_keys_snoc first_seen_snoc)
      moreover have "index_keys (?ks @ [k]) @ other_keys (?ks @ [k]) = ?ks @ [k]"
        using nonidx sp by (simp add: other_keys_snoc index_keys_snoc)
      ultimately show ?thesis
        using False nonidx d s so fs
        unfolding k' by (simp add: other_keys_snoc index_keys_snoc)
    qed
  qed
  with get show ?thesis
    unfolding step form_inv_def by blast
qed

lemma form_inv_Nil: "form_inv [] []"
  by (simp add: form_inv_def dict_get_def values_of_def aggregated_def index_keys_def other_keys_def)

lemma form_inv_foldl: "form_inv (foldl form_step [] es) es"
proof (induction es rule: rev_induct)
  case Nil
  show ?case by (simp add: form_inv_Nil)
next
  case (snoc e es)
  obtain k v where e: "e = (k, v)" by (cases e)
  show ?case
    using form_inv_step [OF snoc.IH, of k v] by (simp add: e)
qed

lemma parseFormFromBlob_within_limit:
  assumes "parseLimit (formLimit opts) = Inr limit" and "\<not> size_exceeds (blob_size b) limit"
  shows "parseFormFromBlob opts b c =
     Normal (JDict (foldl form_step [] (URLSearchParams (blob_text b)))) c"
  using assms by (simp add: parseFormFromBlob_def)

text \<open>
  C3, as amended. For every form body within the limit the form decoder returns an
  object in which a key that occurs once holds its string value (a scalar, not a list of
  one), a key that occurs twice holds the list of its two values, and every later
  occurrence appends to that list: each key holds all its values, in the order of the
  body, and none is overwritten. The keys that are not array indices are enumerated in
  first-seen order; those that are array indices come before them, in ascending numeric
  order, as the language orders the properties of an object. For a body with no such
  key, the keys are in first-seen order.
\<close>

theorem form_decoder_aggregates:
  assumes "parseLimit (formLimit opts) = Inr limit" and "\<not> size_exceeds (blob_size b) limit"
  shows "\<exists>obj. parseFormFromBlob opts b c = Normal (JDict obj) c
     \<and> (\<forall>k. dict_get obj k = aggregated (values_of k (URLSearchParams (blob_text b))))
     \<and> other_keys (map fst obj) = first_seen (other_keys (map fst (URLSearchParams (blob_text b))))
     \<and> map fst obj = index_keys (map fst obj) @ other_keys (map fst obj)
     \<and> sorted (map digits_value (index_keys (map fst obj)))
     \<and> (index_keys (map fst (URLSearchParams (blob_text b))) = []
          \<longrightarrow> map fst obj = first_seen (map fst (URLSearchParams (blob_text b))))"
proof -
  let ?es = "URLSearchParams (blob_text b)"
  let ?obj = "foldl form_step [] ?es"
  have inv: "form_inv ?obj ?es"
    by (rule form_inv_foldl)
  then have g: "\<forall>k. dict_get ?obj k = aggregated (values_of k ?es)"
    and s: "set (map fst ?obj) = fst ` set ?es"
    and sp: "map fst ?obj = index_keys (map fst ?obj) @ other_keys (map fst ?obj)"
    and so: "sorted (map digits_value (index_keys (map fst ?obj)))"
    and fs: "other_keys (map fst ?obj) = first_seen (other_keys (map fst ?es))"
    unfolding form_inv_def by blast+
  have "map fst ?obj = first_seen (map fst ?es)" if n: "index_keys (map fst ?es) = []"
  proof -
    from n have none: "\<forall>k \<in> set (map fst ?es). \<not> is_array_index k"
      by (simp add: index_keys_def filter_empty_conv)
    then have "other_keys (map fst ?es) = map fst ?es"
      by (simp add: other_keys_def)
    moreover have "index_keys (map fst ?obj) = []"
      using none s by (simp add: index_keys_def filter_empty_conv)
    ultimately show ?thesis
      using sp fs by simp
  qed
  with g sp so fs parseFormFromBlob_within_limit [OF assms, of c] show ?thesis
    by blast
qed

text \<open>The claim as stated fails on the order of the keys: in the body \<open>b=x&1=y\<close> the key
  \<open>b\<close> is seen first, and the object enumerates \<open>1\<close> before it.\<close>

theorem form_decoder_aggregates_counterexample:
  "map fst (URLSearchParams ''b=x&1=y'') = [''b'', ''1'']
   \<and> parseLimit (formLimit defaults) = Inr (Finite 57344)
   \<and> \<not> size_exceeds (blob_size (form_blob ''b=x&1=y'')) (Finite 57344)
   \<and> parseFormFromBlob defaults (form_blob ''b=x&1=y'') (post_form ''b=x&1=y'')
       = Normal (JDict [(''1'', JStr ''y''), (''b'', JStr ''x'')]) (post_form ''b=x&1=y'')"
  by code_simp

theorem form_decoder_aggregates_witness:
  "parseFormFromBlob defaults (form_blob ''tags=a&tags=b&tags=c'') (post_form ''tags=a&tags=b&tags=c'')
     = Normal (JDict [(''tags'', JArr [JStr ''a'', JStr ''b'', JStr ''c''])])
         (post_form ''tags=a&tags=b&tags=c'')
   \<and> aggregated (values_of ''tags'' (URLSearchParams (blob_text (form_blob ''tags=a&tags=b&tags=c''))))
     = JArr [JStr ''a'', JStr ''b'', JStr ''c'']
   \<and> parseFormFromBlob defaults (form_blob ''name=test'') (post_form ''name=test'')
     = Normal (JDict [(''name'', JStr ''test'')]) (post_form ''name=test'')
   \<and> aggregated (values_of ''name'' (URLSearchParams (blob_text (form_blob ''name=test''))))
     = JStr ''test''"
proof -
  have l: "parseLimit (formLimit defaults) = Inr (Finite 57344)"
    by code_simp
  have s1: "\<not> size_exceeds (blob_size (form_blob ''tags=a&tags=b&tags=c'')) (Finite 57344)"
    and s2: "\<not> size_exceeds (blob_size (form_blob ''name=test'')) (Finite 57344)"
    by code_simp+
  have e1: "parseFormFromBlob defaults (form_blob ''tags=a&tags=b&tags=c'') (post_form ''tags=a&tags=b&tags=c'')
     = Normal (JDict [(''tags'', JArr [JStr ''a'', JStr ''b'', JStr ''c''])])
         (post_form ''tags=a&tags=b&tags=c'')"
    by code_simp
  have e2: "parseFormFromBlob defaults (form_blob ''name=test'') (post_form ''name=test'')
     = Normal (JDict [(''name'', JStr ''test'')]) (post_form ''name=test'')"
    by code_simp
  have d1: "dict_get [(''tags'', JArr [JStr ''a'', JStr ''b'', JStr ''c''])] ''tags''
      = JArr [JStr ''a'', JStr ''b'', JStr ''c'']"
    and d2: "dict_get [(''name'', JStr ''test'')] ''name'' = JStr ''test''"
    by (simp_all add: dict_get_def)
  have a1: "aggregated (values_of ''tags'' (URLSearchParams (blob_text (form_blob ''tags=a&tags=b&tags=c''))))
     = JArr [JStr ''a'', JStr ''b'', JStr ''c'']"
  proof -
    from form_decoder_aggregates [OF l s1, of "post_form ''tags=a&tags=b&tags=c''"]
    obtain obj where p: "parseFormFromBlob defaults (form_blob ''tags=a&tags=b&tags=c'')
          (post_form ''tags=a&tags=b&tags=c'') = Normal (JDict obj) (post_form ''tags=a&tags=b&tags=c'')"
      and g: "\<forall>k. dict_get obj k
          = aggregated (values_of k (URLSearchParams (blob_text (form_blob ''tags=a&tags=b&tags=c''))))"
      by blast
    from p e1 have "obj = [(''tags'', JArr [JStr ''a'', JStr ''b'', JStr ''c''])]"
      by simp
    with g d1 show ?thesis by metis
  qed
  have a2: "aggregated (values_of ''name'' (URLSearchParams (blob_text (form_blob ''name=test''))))
     = JStr ''test''"
  proof -
    from form_decoder_aggregates [OF l s2, of "post_form ''name=test''"]
    obtain obj where p: "parseFormFromBlob defaults (form_blob ''name=test'')
          (post_form ''name=test'') = Normal (JDict obj) (post_form ''name=test'')"
      and g: "\<forall>k. dict_get obj k
          = aggregated (values_of k (URLSearchParams (blob_text (form_blob ''name=test''))))"
      by blast
    from p e2 have "obj = [(''name'', JStr ''test'')]"
      by simp
    with g d2 show ?thesis by metis
  qed
  from e1 a1 e2 a2 show ?thesis by blast
qed



subsection \<open>The limit parser\<close>

lemma not_upper_lower [simp]: "\<not> is_upper c \<Longrightarrow> toLowerCase_char c = c"
  by (simp add: toLowerCase_char_def)




lemma lower_is_digit [simp]: "is_digit (toLowerCase_char c) = is_digit c"
  by (auto simp: is_digit_def toLowerCase_char_code is_upper_def)

lemma lower_is_space [simp]: "is_space (toLowerCase_char c) = is_space c"
  by (auto simp: is_space_def toLowerCase_char_code is_upper_def)

lemma lower_is_dot [simp]: "toLowerCase_char c = CHR ''.'' \<longleftrightarrow> c = CHR ''.''"
proof -
  have "char_code (toLowerCase_char c) = 46 \<longleftrightarrow> char_code c = 46"
    by (auto simp: toLowerCase_char_code is_upper_def)
  moreover have "char_code CHR ''.'' = 46"
    by (simp add: char_code_def)
  ultimately show ?thesis
    by (metis char_code_inject)
qed



lemma toLowerCase_append [simp]: "toLowerCase (a @ b) = toLowerCase a @ toLowerCase b"
  by (simp add: toLowerCase_def)























text \<open>The number is read as \<open>parseFloat\<close> reads it, to the nearest double: twenty
  nines after the point are 1, and the limit is 1024 bytes, not 1023.\<close>

lemma parseLimit_reads_doubles:
  "parseLimit (JStr ''0.99999999999999999999kb'') = Inr (Finite 1024)"
  by code_simp

end
